theory Spec2Isabelle
  imports Main
begin

section \<open>JavaScript string primitives used by parseCSV\<close>

text \<open>
  Strings are lists of characters. The characters of the model are the code units below
  256; within that range \<open>String.prototype.trim\<close> strips TAB, LF, VT, FF, CR, SPACE and
  NBSP, and \<open>toLowerCase\<close> maps A-Z and the Latin-1 capitals (C0-DE except D7) to the
  letter 32 positions later.
\<close>

definition is_ws :: "char \<Rightarrow> bool" where
  "is_ws c = (c = CHR 0x09 \<or> c = CHR 0x0A \<or> c = CHR 0x0B \<or> c = CHR 0x0C
              \<or> c = CHR 0x0D \<or> c = CHR 0x20 \<or> c = CHR 0xA0)"

definition trim :: "string \<Rightarrow> string" where
  "trim s = rev (dropWhile is_ws (rev (dropWhile is_ws s)))"

definition lower_char :: "char \<Rightarrow> char" where
  "lower_char c =
     (let n = (of_char c :: nat)
      in if 65 \<le> n \<and> n \<le> 90 then char_of (n + 32)
         else if 192 \<le> n \<and> n \<le> 222 \<and> n \<noteq> 215 then char_of (n + 32)
         else c)"

definition toLowerCase :: "string \<Rightarrow> string" where
  "toLowerCase s = map lower_char s"

text \<open>
  \<open>s.split(sep)\<close> for a one-character separator: the pieces between the occurrences of
  the separator, in order; a string without the separator (the empty string too) is one
  piece.
\<close>

fun js_split :: "char \<Rightarrow> string \<Rightarrow> string list" where
  "js_split sep [] = [[]]"
| "js_split sep (x # xs) =
     (if x = sep then [] # js_split sep xs
      else (case js_split sep xs of
              [] \<Rightarrow> [[x]]
            | p # ps \<Rightarrow> (x # p) # ps))"

text \<open>\<open>a[i]\<close> on an array: \<open>None\<close> stands for \<open>undefined\<close>.\<close>

fun nth_opt :: "'a list \<Rightarrow> nat \<Rightarrow> 'a option" where
  "nth_opt [] i = None"
| "nth_opt (x # xs) 0 = Some x"
| "nth_opt (x # xs) (Suc i) = nth_opt xs i"

text \<open>\<open>v || d\<close> on a string or \<open>undefined\<close>: the empty string and \<open>undefined\<close> are falsy.\<close>

fun or_else :: "string option \<Rightarrow> string \<Rightarrow> string" where
  "or_else None d = d"
| "or_else (Some s) d = (if s = [] then d else s)"

section \<open>The records\<close>

record alternative =
  alt_name :: string
  alt_countryCode :: string
  alt_description :: string

record company =
  name :: string
  boycott :: bool
  reason :: string
  country :: string
  alternatives :: "alternative list"
  barcodes :: "string list"
  proofUrls :: "string list"

datatype js_error = TypeError

section \<open>parseCSV\<close>

text \<open>The callback of \<open>value.split(';').map(...)\<close> in the alternatives case.\<close>

definition parse_alternative :: "string \<Rightarrow> alternative" where
  "parse_alternative alt =
     (let parts = js_split CHR '':'' (trim alt)
      in \<lparr> alt_name = or_else (map_option trim (nth_opt parts 0)) '''',
           alt_countryCode = or_else (map_option trim (nth_opt parts 1)) ''GLOBAL'',
           alt_description = or_else (map_option trim (nth_opt parts 2)) '''' \<rparr>)"

definition parse_alternatives :: "string \<Rightarrow> alternative list" where
  "parse_alternatives v =
     filter (\<lambda>alt. alt_name alt \<noteq> []) (map parse_alternative (js_split CHR '';'' v))"

text \<open>\<open>value ? value.split(';').map(b => b.trim()).filter(b => b) : []\<close>\<close>

definition parse_list :: "string \<Rightarrow> string list" where
  "parse_list v =
     (if v \<noteq> [] then filter (\<lambda>b. b \<noteq> []) (map trim (js_split CHR '';'' v)) else [])"

text \<open>\<open>values[index] || ''\<close>\<close>

definition cell_value :: "string list \<Rightarrow> nat \<Rightarrow> string" where
  "cell_value vals index = or_else (nth_opt vals index) ''''"

text \<open>The body of the \<open>headers.forEach\<close> callback: one header, its index, the row's values.\<close>

definition set_field :: "string list \<Rightarrow> string \<Rightarrow> nat \<Rightarrow> company \<Rightarrow> company" where
  "set_field vals header index c =
     (let v = cell_value vals index
      in if header = ''name'' then c\<lparr>name := v\<rparr>
         else if header = ''boycott''
           then c\<lparr>boycott := (toLowerCase v = ''true'' \<or> toLowerCase v = ''yes'')\<rparr>
         else if header = ''reason'' then c\<lparr>reason := v\<rparr>
         else if header = ''country'' then c\<lparr>country := or_else (Some v) ''GLOBAL''\<rparr>
         else if header = ''alternatives''
           then (if v \<noteq> [] then c\<lparr>alternatives := parse_alternatives v\<rparr> else c)
         else if header = ''barcodes'' then c\<lparr>barcodes := parse_list v\<rparr>
         else if header = ''proofurls'' \<or> header = ''proof_urls''
           then c\<lparr>proofUrls := parse_list v\<rparr>
         else c)"

fun forEach_headers :: "string list \<Rightarrow> nat \<Rightarrow> string list \<Rightarrow> company \<Rightarrow> company" where
  "forEach_headers vals index [] c = c"
| "forEach_headers vals index (h # hs) c =
     forEach_headers vals (Suc index) hs (set_field vals h index c)"

definition empty_company :: company where
  "empty_company =
     \<lparr> name = '''', boycott = False, reason = '''', country = ''GLOBAL'',
       alternatives = [], barcodes = [], proofUrls = [] \<rparr>"

text \<open>One pass of the body of the \<open>for\<close> loop, up to the admission test.\<close>

definition parse_row :: "string list \<Rightarrow> string \<Rightarrow> company" where
  "parse_row headers line =
     forEach_headers (map trim (js_split CHR '','' line)) 0 headers empty_company"

function parse_loop :: "string list \<Rightarrow> string list \<Rightarrow> nat \<Rightarrow> company list \<Rightarrow> company list" where
  "parse_loop lines headers i companies =
     (if i < length lines
      then (let c = parse_row headers (lines ! i)
            in parse_loop lines headers (Suc i)
                 (if name c \<noteq> [] \<and> reason c \<noteq> [] then companies @ [c] else companies))
      else companies)"
  by pat_completeness auto
termination
  by (relation "measure (\<lambda>(lines, headers, i, companies). length lines - i)") auto

declare parse_loop.simps [simp del]

text \<open>
  \<open>lines[0].split(',')\<close> raises a TypeError when \<open>lines[0]\<close> is \<open>undefined\<close>; every other
  step of the function is defined on all strings.
\<close>

definition parseCSV :: "string \<Rightarrow> js_error + company list" where
  "parseCSV csvData =
     (let lines = js_split CHR 0x0A (trim csvData)
      in case nth_opt lines 0 of
           None \<Rightarrow> Inl TypeError
         | Some l0 \<Rightarrow>
             (let headers = map (\<lambda>h. toLowerCase (trim h)) (js_split CHR '','' l0)
              in Inr (parse_loop lines headers 1 [])))"

text \<open>The two local arrays of parseCSV, as functions of the input text.\<close>

definition csv_lines :: "string \<Rightarrow> string list" where
  "csv_lines csvData = js_split CHR 0x0A (trim csvData)"

definition csv_headers :: "string \<Rightarrow> string list" where
  "csv_headers csvData =
     (case csv_lines csvData of
        [] \<Rightarrow> []
      | l0 # rest \<Rightarrow> map (\<lambda>h. toLowerCase (trim h)) (js_split CHR '','' l0))"

text \<open>
  The line indices at which the loop pushes a record: the values of \<open>i\<close>, from 1 up to
  the number of lines, whose decoded row passes the test on name and reason.
\<close>

definition emitted_rows :: "string \<Rightarrow> nat list" where
  "emitted_rows csvData =
     filter (\<lambda>i. name (parse_row (csv_headers csvData) (csv_lines csvData ! i)) \<noteq> []
                 \<and> reason (parse_row (csv_headers csvData) (csv_lines csvData ! i)) \<noteq> [])
       [1 ..< length (csv_lines csvData)]"

text \<open>The text that \<open>downloadSampleCSV\<close> offers as the sample file of the dialog.\<close>

definition sampleData :: string where
  \<open>sampleData = ''name,boycott,reason,country,alternatives,barcodes,proofurls\<newline>Sample Company A,true,Environmental concerns,IN,"Dr Pepper:IN:Organic alternative;RC Cola:PK:Local brand",1111111111111;2222222222222,https://example.com/article1\<newline>Sample Company B,false,No current issues,US,"Local Brand:US:Regional alternative",3333333333333,https://example.com/article2''\<close>

section \<open>Splitting and indexing\<close>

lemma js_split_not_Nil: "js_split sep s \<noteq> []"
  by (induction s) (auto split: list.splits)

lemma js_split_append_sep:
  "js_split sep (a @ sep # b) = js_split sep a @ js_split sep b"
proof (induction a)
  case Nil
  show ?case by simp
next
  case (Cons x a)
  show ?case
  proof (cases "x = sep")
    case True
    with Cons show ?thesis by simp
  next
    case False
    obtain p ps where ps: "js_split sep a = p # ps"
      using js_split_not_Nil [of sep a] by (cases "js_split sep a") auto
    with False Cons show ?thesis by simp
  qed
qed

lemma js_split_snoc_sep: "js_split sep (a @ [sep]) = js_split sep a @ [[]]"
  using js_split_append_sep [of sep a "[]"] by simp

lemma nth_opt_eq: "nth_opt xs i = (if i < length xs then Some (xs ! i) else None)"
  by (induction xs i rule: nth_opt.induct) auto

lemma trim_Nil: "trim [] = []"
  by (simp add: trim_def)

section \<open>Trimming\<close>

lemma trim_ws_Cons: "is_ws x \<Longrightarrow> trim (x # s) = trim s"
  by (simp add: trim_def)

lemma trim_ws_snoc: "is_ws x \<Longrightarrow> trim (s @ [x]) = trim s"
proof (cases "\<forall>y\<in>set s. is_ws y")
  case True
  assume "is_ws x"
  from True have d1: "dropWhile is_ws s = []"
    by (induction s) auto
  from True \<open>is_ws x\<close> have d2: "dropWhile is_ws (s @ [x]) = []"
    by (induction s) auto
  show ?thesis by (simp only: trim_def d1 d2)
next
  case False
  assume "is_ws x"
  from False have "dropWhile is_ws (s @ [x]) = dropWhile is_ws s @ [x]"
    by (auto simp: dropWhile_append)
  with \<open>is_ws x\<close> show ?thesis by (simp add: trim_def)
qed

lemma trim_dropWhile: "trim (dropWhile is_ws s) = trim s"
  by (simp add: trim_def)

lemma trim_rev_dropWhile: "trim (rev (dropWhile is_ws (rev s))) = trim s"
proof (induction s rule: rev_induct)
  case Nil
  show ?case by simp
next
  case (snoc x s)
  show ?case
  proof (cases "is_ws x")
    case True
    with snoc show ?thesis by (simp add: trim_ws_snoc)
  next
    case False
    then show ?thesis by simp
  qed
qed

lemma trim_idem: "trim (trim s) = trim s"
proof -
  have "trim (trim s) = trim (rev (dropWhile is_ws (rev (dropWhile is_ws s))))"
    by (simp add: trim_def)
  also have "\<dots> = trim (dropWhile is_ws s)"
    by (rule trim_rev_dropWhile)
  also have "\<dots> = trim s"
    by (rule trim_dropWhile)
  finally show ?thesis .
qed

lemma js_split_snoc_other:
  "x \<noteq> sep \<Longrightarrow>
   js_split sep (s @ [x]) = butlast (js_split sep s) @ [last (js_split sep s) @ [x]]"
proof (induction s)
  case Nil
  then show ?case by simp
next
  case (Cons y s)
  obtain p ps where ps: "js_split sep s = p # ps"
    using js_split_not_Nil [of sep s] by (cases "js_split sep s") auto
  obtain q qs where qs: "js_split sep (s @ [x]) = q # qs"
    using js_split_not_Nil [of sep "s @ [x]"] by (cases "js_split sep (s @ [x])") auto
  from Cons ps qs show ?case
    by (cases ps) (auto split: if_splits)
qed

lemma map_trim_split_ws_Cons:
  assumes "is_ws x" "x \<noteq> sep"
  shows "map trim (js_split sep (x # s)) = map trim (js_split sep s)"
proof -
  obtain p ps where ps: "js_split sep s = p # ps"
    using js_split_not_Nil [of sep s] by (cases "js_split sep s") auto
  with assms show ?thesis by (simp add: trim_ws_Cons)
qed

lemma map_trim_split_ws_snoc:
  assumes "is_ws x" "x \<noteq> sep"
  shows "map trim (js_split sep (s @ [x])) = map trim (js_split sep s)"
proof -
  have ne: "js_split sep s \<noteq> []" by (rule js_split_not_Nil)
  have "map trim (js_split sep (s @ [x]))
          = map trim (butlast (js_split sep s)) @ [trim (last (js_split sep s))]"
    using assms by (simp add: js_split_snoc_other trim_ws_snoc)
  also have "\<dots> = map trim (butlast (js_split sep s) @ [last (js_split sep s)])"
    by simp
  also have "\<dots> = map trim (js_split sep s)"
    using ne by simp
  finally show ?thesis .
qed

lemma map_trim_split_dropWhile:
  "\<not> is_ws sep \<Longrightarrow> map trim (js_split sep (dropWhile is_ws s)) = map trim (js_split sep s)"
proof (induction s)
  case Nil
  show ?case by simp
next
  case (Cons x s)
  show ?case
  proof (cases "is_ws x")
    case True
    with Cons have "x \<noteq> sep" by auto
    with True Cons show ?thesis by (simp add: map_trim_split_ws_Cons del: js_split.simps)
  next
    case False
    then show ?thesis by simp
  qed
qed

lemma map_trim_split_rev_dropWhile:
  "\<not> is_ws sep \<Longrightarrow>
   map trim (js_split sep (rev (dropWhile is_ws (rev s)))) = map trim (js_split sep s)"
proof (induction s rule: rev_induct)
  case Nil
  show ?case by simp
next
  case (snoc x s)
  show ?case
  proof (cases "is_ws x")
    case True
    with snoc have "x \<noteq> sep" by auto
    with True snoc show ?thesis by (simp add: map_trim_split_ws_snoc)
  next
    case False
    then show ?thesis by simp
  qed
qed

lemma map_trim_split_trim:
  assumes "\<not> is_ws sep"
  shows "map trim (js_split sep (trim s)) = map trim (js_split sep s)"
proof -
  have t: "trim s = rev (dropWhile is_ws (rev (dropWhile is_ws s)))"
    by (simp add: trim_def)
  have "map trim (js_split sep (trim s))
          = map trim (js_split sep (dropWhile is_ws s))"
    using assms by (simp add: t map_trim_split_rev_dropWhile)
  also have "\<dots> = map trim (js_split sep s)"
    using assms by (rule map_trim_split_dropWhile)
  finally show ?thesis .
qed

lemma cell_value_map_trim: "cell_value (map trim xs) i = trim (cell_value xs i)"
  by (simp add: cell_value_def nth_opt_eq trim_Nil)

lemma not_ws_semicolon: "\<not> is_ws CHR '';''" by (simp add: is_ws_def)
lemma not_ws_colon: "\<not> is_ws CHR '':''" by (simp add: is_ws_def)

section \<open>The loop as a filter over the data rows\<close>

lemma parse_loop_eq:
  "parse_loop lines headers i companies =
     companies @ filter (\<lambda>c. name c \<noteq> [] \<and> reason c \<noteq> [])
                   (map (parse_row headers) (drop i lines))"
proof (induction lines headers i companies rule: parse_loop.induct)
  case (1 lines headers i companies)
  show ?case
  proof (cases "i < length lines")
    case True
    then have d: "drop i lines = lines ! i # drop (Suc i) lines"
      by (simp add: Cons_nth_drop_Suc)
    show ?thesis
      using True "1.IH" [OF True refl]
      by (subst parse_loop.simps) (simp add: d Let_def)
  next
    case False
    then show ?thesis by (subst parse_loop.simps) simp
  qed
qed

lemma parseCSV_eq:
  "parseCSV s =
     Inr (filter (\<lambda>c. name c \<noteq> [] \<and> reason c \<noteq> [])
            (map (parse_row (csv_headers s)) (drop 1 (csv_lines s))))"
proof -
  obtain l0 rest where l: "js_split CHR 0x0A (trim s) = l0 # rest"
    using js_split_not_Nil [of "CHR 0x0A" "trim s"]
    by (cases "js_split CHR 0x0A (trim s)") auto
  show ?thesis
    by (simp add: parseCSV_def csv_lines_def csv_headers_def l parse_loop_eq)
qed

section \<open>Rows shorter than the header\<close>

lemma cell_value_pad: "cell_value (vals @ replicate k []) i = cell_value vals i"
  by (simp add: cell_value_def nth_opt_eq nth_append)

lemma set_field_pad: "set_field (vals @ replicate k []) h i c = set_field vals h i c"
  by (simp add: set_field_def cell_value_pad)

lemma forEach_headers_pad:
  "forEach_headers (vals @ replicate k []) i hs c = forEach_headers vals i hs c"
  by (induction hs arbitrary: i c) (simp_all add: set_field_pad)

lemma js_split_pad:
  "js_split sep (line @ replicate k sep) = js_split sep line @ replicate k []"
proof (induction k)
  case 0
  show ?case by simp
next
  case (Suc k)
  have "line @ replicate (Suc k) sep = (line @ replicate k sep) @ [sep]"
    by (simp add: replicate_append_same)
  then show ?case
    using Suc by (simp only: js_split_snoc_sep) (simp add: replicate_append_same)
qed

section \<open>Decoding one row\<close>

lemma forEach_headers_append:
  "forEach_headers vals i (xs @ ys) c =
     forEach_headers vals (i + length xs) ys (forEach_headers vals i xs c)"
  by (induction xs arbitrary: i c) simp_all

lemma set_field_other:
  "h \<noteq> ''name'' \<Longrightarrow> name (set_field vals h i c) = name c"
  "h \<noteq> ''boycott'' \<Longrightarrow> boycott (set_field vals h i c) = boycott c"
  "h \<noteq> ''reason'' \<Longrightarrow> reason (set_field vals h i c) = reason c"
  "h \<noteq> ''alternatives'' \<Longrightarrow> alternatives (set_field vals h i c) = alternatives c"
  "h \<noteq> ''barcodes'' \<Longrightarrow> barcodes (set_field vals h i c) = barcodes c"
  "h \<noteq> ''proofurls'' \<Longrightarrow> h \<noteq> ''proof_urls'' \<Longrightarrow>
     proofUrls (set_field vals h i c) = proofUrls c"
  by (simp_all add: set_field_def Let_def)

lemma forEach_headers_keep:
  assumes "\<And>h i c. h \<in> set hs \<Longrightarrow> f (set_field vals h i c) = f c"
  shows "f (forEach_headers vals i hs c) = f c"
  using assms by (induction hs arbitrary: i c) simp_all

lemma forEach_headers_other:
  "''name'' \<notin> set hs \<Longrightarrow> name (forEach_headers vals i hs c) = name c"
  "''boycott'' \<notin> set hs \<Longrightarrow> boycott (forEach_headers vals i hs c) = boycott c"
  "''reason'' \<notin> set hs \<Longrightarrow> reason (forEach_headers vals i hs c) = reason c"
  "''alternatives'' \<notin> set hs \<Longrightarrow>
     alternatives (forEach_headers vals i hs c) = alternatives c"
  "''barcodes'' \<notin> set hs \<Longrightarrow> barcodes (forEach_headers vals i hs c) = barcodes c"
  "''proofurls'' \<notin> set hs \<Longrightarrow> ''proof_urls'' \<notin> set hs \<Longrightarrow>
     proofUrls (forEach_headers vals i hs c) = proofUrls c"
  by (rule forEach_headers_keep, rule set_field_other, blast+)+

lemma set_field_key:
  "name (set_field vals ''name'' i c) = cell_value vals i"
  "boycott (set_field vals ''boycott'' i c)
     = (toLowerCase (cell_value vals i) = ''true'' \<or> toLowerCase (cell_value vals i) = ''yes'')"
  "reason (set_field vals ''reason'' i c) = cell_value vals i"
  "alternatives (set_field vals ''alternatives'' i c)
     = (if cell_value vals i \<noteq> [] then parse_alternatives (cell_value vals i)
        else alternatives c)"
  "barcodes (set_field vals ''barcodes'' i c) = parse_list (cell_value vals i)"
  "proofUrls (set_field vals ''proofurls'' i c) = parse_list (cell_value vals i)"
  "proofUrls (set_field vals ''proof_urls'' i c) = parse_list (cell_value vals i)"
  by (simp_all add: set_field_def Let_def)

lemma parse_row_split:
  "parse_row (pre @ h # post) line =
     forEach_headers (map trim (js_split CHR '','' line)) (Suc (length pre)) post
       (set_field (map trim (js_split CHR '','' line)) h (length pre)
          (forEach_headers (map trim (js_split CHR '','' line)) 0 pre empty_company))"
  by (simp add: parse_row_def forEach_headers_append)

text \<open>Every cell is trimmed, so the name and the reason of a decoded row are.\<close>

lemma cell_value_trimmed:
  "\<forall>v\<in>set vals. trim v = v \<Longrightarrow> trim (cell_value vals i) = cell_value vals i"
  by (simp add: cell_value_def nth_opt_eq trim_Nil)

lemma set_field_trimmed:
  assumes "\<forall>v\<in>set vals. trim v = v"
    and "trim (name c) = name c \<and> trim (reason c) = reason c"
  shows "trim (name (set_field vals h i c)) = name (set_field vals h i c)
       \<and> trim (reason (set_field vals h i c)) = reason (set_field vals h i c)"
  using assms cell_value_trimmed [OF assms(1), of i]
  by (simp add: set_field_def Let_def)

lemma forEach_headers_trimmed:
  "\<forall>v\<in>set vals. trim v = v \<Longrightarrow>
   trim (name c) = name c \<and> trim (reason c) = reason c \<Longrightarrow>
   trim (name (forEach_headers vals i hs c)) = name (forEach_headers vals i hs c)
   \<and> trim (reason (forEach_headers vals i hs c)) = reason (forEach_headers vals i hs c)"
proof (induction hs arbitrary: i c)
  case Nil
  then show ?case by simp
next
  case (Cons h hs)
  from Cons.prems have "trim (name (set_field vals h i c)) = name (set_field vals h i c)
       \<and> trim (reason (set_field vals h i c)) = reason (set_field vals h i c)"
    by (rule set_field_trimmed)
  with Cons.IH [OF Cons.prems(1)] show ?case by simp
qed

lemma parse_row_trimmed:
  "trim (name (parse_row hs line)) = name (parse_row hs line)
   \<and> trim (reason (parse_row hs line)) = reason (parse_row hs line)"
  unfolding parse_row_def
  by (rule forEach_headers_trimmed) (simp_all add: trim_idem empty_company_def trim_Nil)

section \<open>Lists and alternatives in a cell\<close>

lemma parse_list_eq:
  "parse_list v = filter (\<lambda>b. b \<noteq> []) (map trim (js_split CHR '';'' v))"
  by (simp add: parse_list_def trim_Nil)

lemma parse_list_raw:
  "parse_list (trim r) = filter (\<lambda>b. b \<noteq> []) (map trim (js_split CHR '';'' r))"
  by (simp add: parse_list_eq map_trim_split_trim not_ws_semicolon)

lemma parse_alternative_trim: "parse_alternative (trim alt) = parse_alternative alt"
  by (simp add: parse_alternative_def trim_idem)

lemma map_parse_alternative:
  "map parse_alternative xs = map parse_alternative (map trim xs)"
  by (simp add: parse_alternative_trim)

lemma parse_alternatives_raw:
  "parse_alternatives (trim r) = parse_alternatives r"
proof -
  have "map parse_alternative (js_split CHR '';'' (trim r))
          = map parse_alternative (map trim (js_split CHR '';'' (trim r)))"
    by (rule map_parse_alternative)
  also have "\<dots> = map parse_alternative (map trim (js_split CHR '';'' r))"
    by (simp only: map_trim_split_trim [OF not_ws_semicolon])
  also have "\<dots> = map parse_alternative (js_split CHR '';'' r)"
    by (rule map_parse_alternative [symmetric])
  finally show ?thesis by (simp add: parse_alternatives_def)
qed

lemma parse_alternatives_Nil: "parse_alternatives [] = []"
  by (simp add: parse_alternatives_def parse_alternative_def trim_Nil)

lemma parse_alternative_parts:
  "parse_alternative sub =
     \<lparr> alt_name = trim (js_split CHR '':'' sub ! 0),
       alt_countryCode =
         (if 1 < length (js_split CHR '':'' sub) \<and> trim (js_split CHR '':'' sub ! 1) \<noteq> []
          then trim (js_split CHR '':'' sub ! 1) else ''GLOBAL''),
       alt_description =
         (if 2 < length (js_split CHR '':'' sub) then trim (js_split CHR '':'' sub ! 2)
          else '''') \<rparr>"
proof -
  let ?p = "js_split CHR '':'' (trim sub)" and ?q = "js_split CHR '':'' sub"
  have m: "map trim ?p = map trim ?q"
    by (rule map_trim_split_trim [OF not_ws_colon])
  then have len: "length ?p = length ?q"
    by (rule map_eq_imp_length_eq)
  have nth: "\<And>i. i < length ?q \<Longrightarrow> trim (?p ! i) = trim (?q ! i)"
  proof -
    fix i assume i: "i < length ?q"
    then have "trim (?p ! i) = map trim ?p ! i" using len by simp
    also have "\<dots> = map trim ?q ! i" by (simp only: m)
    also have "\<dots> = trim (?q ! i)" using i by simp
    finally show "trim (?p ! i) = trim (?q ! i)" .
  qed
  have f0: "or_else (map_option trim (nth_opt ?p 0)) '''' = trim (?q ! 0)"
  proof -
    obtain x xs where "?p = x # xs"
      using js_split_not_Nil [of "CHR '':''" "trim sub"] by (cases ?p) auto
    then have "or_else (map_option trim (nth_opt ?p 0)) '''' = trim (?p ! 0)"
      by simp
    moreover have "0 < length ?q"
      using js_split_not_Nil [of "CHR '':''" sub] by simp
    ultimately show ?thesis by (simp only: nth)
  qed
  have f1: "or_else (map_option trim (nth_opt ?p 1)) ''GLOBAL''
              = (if 1 < length ?q \<and> trim (?q ! 1) \<noteq> [] then trim (?q ! 1) else ''GLOBAL'')"
  proof (cases "1 < length ?q")
    case True
    with nth [of 1] show ?thesis by (simp add: nth_opt_eq len)
  next
    case False
    then show ?thesis by (simp add: nth_opt_eq len)
  qed
  have f2: "or_else (map_option trim (nth_opt ?p 2)) ''''
              = (if 2 < length ?q then trim (?q ! 2) else '''')"
  proof (cases "2 < length ?q")
    case True
    with nth [of 2] show ?thesis by (simp add: nth_opt_eq len)
  next
    case False
    then show ?thesis by (simp add: nth_opt_eq len)
  qed
  show ?thesis
    by (simp only: parse_alternative_def Let_def f0 f1 f2)
qed

lemma alt_name_trimmed: "trim (alt_name (parse_alternative sub)) = alt_name (parse_alternative sub)"
  by (subst (1 2) parse_alternative_parts) (simp add: trim_idem)

lemma parse_alternatives_spec:
  "parse_alternatives v
     = filter (\<lambda>a. trim (alt_name a) \<noteq> []) (map parse_alternative (js_split CHR '';'' v))"
  unfolding parse_alternatives_def
  by (rule filter_cong) (auto simp: alt_name_trimmed trim_Nil)

lemma parse_alternatives_trim_Nil: "trim r = [] \<Longrightarrow> parse_alternatives r = []"
  using parse_alternatives_raw [of r] by (simp add: parse_alternatives_Nil)

lemma drop_1_nth: "drop 1 xs = map ((!) xs) [1 ..< length xs]"
proof -
  have "drop 1 xs = drop 1 (map ((!) xs) [0 ..< length xs])"
    by (simp only: map_nth)
  also have "\<dots> = map ((!) xs) (drop 1 [0 ..< length xs])"
    by (simp only: drop_map)
  also have "\<dots> = map ((!) xs) [1 ..< length xs]"
    by (simp only: drop_upt) simp
  finally show ?thesis .
qed

section \<open>Degenerate input\<close>

text \<open>
  C4. parseCSV of the empty string is the empty sequence, and so is parseCSV of every text
  that, once trimmed, has fewer than two newline-separated lines (nothing, or a header
  only); neither raises.
\<close>

theorem parseCSV_degenerate:
  "parseCSV '''' = Inr [] \<and> (length (csv_lines s) < 2 \<longrightarrow> parseCSV s = Inr [])"
proof
  show "parseCSV '''' = Inr []"
    by (simp add: parseCSV_eq csv_lines_def trim_Nil)
  show "length (csv_lines s) < 2 \<longrightarrow> parseCSV s = Inr []"
    by (simp add: parseCSV_eq)
qed

theorem parseCSV_degenerate_witness:
  "length (csv_lines ''name,boycott,reason\<newline>'') < 2
   \<and> parseCSV ''name,boycott,reason\<newline>'' = Inr []"
proof -
  have h: "length (csv_lines ''name,boycott,reason\<newline>'') < 2"
    by code_simp
  with parseCSV_degenerate [of "''name,boycott,reason\<newline>''"] show ?thesis
    by blast
qed

section \<open>Totality\<close>

text \<open>
  C9. parseCSV returns a sequence for every text and never raises: the only step that
  could, \<open>lines[0].split\<close>, always finds a first line, and the loop terminates. A cell
  beyond the end of a row reads as the empty string, so a row decodes exactly as the same
  row padded with empty trailing fields.
\<close>

theorem parseCSV_total:
  "(\<exists>cs. parseCSV s = Inr cs)
   \<and> (length vals \<le> i \<longrightarrow> cell_value vals i = '''')
   \<and> parse_row hs (line @ replicate k CHR '','') = parse_row hs line"
proof (intro conjI)
  show "\<exists>cs. parseCSV s = Inr cs"
    by (simp add: parseCSV_eq)
  show "length vals \<le> i \<longrightarrow> cell_value vals i = ''''"
    by (simp add: cell_value_def nth_opt_eq)
  show "parse_row hs (line @ replicate k CHR '','') = parse_row hs line"
    by (simp add: parse_row_def js_split_pad trim_Nil forEach_headers_pad)
qed

theorem parseCSV_total_witness:
  "length [''A''] \<le> (1::nat) \<and> cell_value [''A''] 1 = ''''
   \<and> parseCSV ''name,reason,country\<newline>A'' = Inr []
   \<and> parse_row [''name'', ''reason''] ''A,,'' = parse_row [''name'', ''reason''] ''A''"
proof -
  have h: "length [''A''] \<le> (1::nat)" by simp
  have e: "parseCSV ''name,reason,country\<newline>A'' = Inr []" by code_simp
  from parseCSV_total [of "''name,reason,country\<newline>A''" "[''A'']" 1
        "[''name'', ''reason'']" "''A''" 2] h e
  show ?thesis by (simp add: numeral_2_eq_2)
qed

section \<open>The admission filter\<close>

text \<open>
  C2. The output of parseCSV is the sequence of the decoded data rows (the lines after the
  first of the trimmed text) whose name and reason are both non-empty after trimming, and
  no others: a row failing the test adds no record and raises nothing. Every record of the
  output has a non-empty name and a non-empty reason.
\<close>

theorem parseCSV_admission:
  "parseCSV s =
     Inr (filter (\<lambda>c. trim (name c) \<noteq> [] \<and> trim (reason c) \<noteq> [])
            (map (parse_row (csv_headers s)) (drop 1 (csv_lines s))))
   \<and> (parseCSV s = Inr cs \<and> c \<in> set cs \<longrightarrow> name c \<noteq> [] \<and> reason c \<noteq> [])"
proof
  have "filter (\<lambda>c. trim (name c) \<noteq> [] \<and> trim (reason c) \<noteq> [])
          (map (parse_row (csv_headers s)) (drop 1 (csv_lines s)))
        = filter (\<lambda>c. name c \<noteq> [] \<and> reason c \<noteq> [])
          (map (parse_row (csv_headers s)) (drop 1 (csv_lines s)))"
    by (rule filter_cong) (auto simp: parse_row_trimmed trim_Nil)
  then show "parseCSV s =
     Inr (filter (\<lambda>c. trim (name c) \<noteq> [] \<and> trim (reason c) \<noteq> [])
            (map (parse_row (csv_headers s)) (drop 1 (csv_lines s))))"
    by (simp only: parseCSV_eq)
  show "parseCSV s = Inr cs \<and> c \<in> set cs \<longrightarrow> name c \<noteq> [] \<and> reason c \<noteq> []"
    by (auto simp: parseCSV_eq)
qed

theorem parseCSV_admission_witness:
  "parseCSV ''name,reason\<newline>Acme,bad\<newline>,x\<newline>B,''
     = Inr [\<lparr>name = ''Acme'', boycott = False, reason = ''bad'', country = ''GLOBAL'',
             alternatives = [], barcodes = [], proofUrls = []\<rparr>]
   \<and> name \<lparr>name = ''Acme'', boycott = False, reason = ''bad'', country = ''GLOBAL'',
             alternatives = [], barcodes = [], proofUrls = []\<rparr> \<noteq> []"
proof -
  have e: "parseCSV ''name,reason\<newline>Acme,bad\<newline>,x\<newline>B,''
     = Inr [\<lparr>name = ''Acme'', boycott = False, reason = ''bad'', country = ''GLOBAL'',
             alternatives = [], barcodes = [], proofUrls = []\<rparr>]"
    by code_simp
  from parseCSV_admission [of "''name,reason\<newline>Acme,bad\<newline>,x\<newline>B,''"
      "[\<lparr>name = ''Acme'', boycott = False, reason = ''bad'', country = ''GLOBAL'',
             alternatives = [], barcodes = [], proofUrls = []\<rparr>]"
      "\<lparr>name = ''Acme'', boycott = False, reason = ''bad'', country = ''GLOBAL'',
             alternatives = [], barcodes = [], proofUrls = []\<rparr>"] e
  show ?thesis by simp
qed

section \<open>The boycott column\<close>

text \<open>
  C3 (as the code has it). The boycott field of a decoded row is true exactly when the
  field of the (last) boycott column, trimmed and then lower-cased, is "true" or "yes";
  without a boycott column it is false. "TRUE", "yes" and "Yes" decode to true; "", "no",
  "false" and "maybe" decode to false.
\<close>

theorem boycott_decoding:
  "(''boycott'' \<notin> set post \<longrightarrow>
      boycott (parse_row (pre @ ''boycott'' # post) line)
        = (toLowerCase (trim (cell_value (js_split CHR '','' line) (length pre))) = ''true''
           \<or> toLowerCase (trim (cell_value (js_split CHR '','' line) (length pre))) = ''yes''))
   \<and> (''boycott'' \<notin> set hs \<longrightarrow> boycott (parse_row hs row) = False)
   \<and> boycott (parse_row [''boycott''] ''TRUE'') = True
   \<and> boycott (parse_row [''boycott''] ''yes'') = True
   \<and> boycott (parse_row [''boycott''] ''Yes'') = True
   \<and> boycott (parse_row [''boycott''] '''') = False
   \<and> boycott (parse_row [''boycott''] ''no'') = False
   \<and> boycott (parse_row [''boycott''] ''false'') = False
   \<and> boycott (parse_row [''boycott''] ''maybe'') = False"
proof (intro conjI)
  show "''boycott'' \<notin> set post \<longrightarrow>
      boycott (parse_row (pre @ ''boycott'' # post) line)
        = (toLowerCase (trim (cell_value (js_split CHR '','' line) (length pre))) = ''true''
           \<or> toLowerCase (trim (cell_value (js_split CHR '','' line) (length pre))) = ''yes'')"
    by (simp add: parse_row_split forEach_headers_other set_field_key cell_value_map_trim)
  show "''boycott'' \<notin> set hs \<longrightarrow> boycott (parse_row hs row) = False"
    by (simp add: parse_row_def forEach_headers_other empty_company_def)
  show "boycott (parse_row [''boycott''] ''TRUE'') = True" by code_simp
  show "boycott (parse_row [''boycott''] ''yes'') = True" by code_simp
  show "boycott (parse_row [''boycott''] ''Yes'') = True" by code_simp
  show "boycott (parse_row [''boycott''] '''') = False" by code_simp
  show "boycott (parse_row [''boycott''] ''no'') = False" by code_simp
  show "boycott (parse_row [''boycott''] ''false'') = False" by code_simp
  show "boycott (parse_row [''boycott''] ''maybe'') = False" by code_simp
qed

theorem boycott_decoding_witness:
  "''boycott'' \<notin> set [''reason'']
   \<and> boycott (parse_row [''name'', ''boycott'', ''reason''] ''A, YES ,r'') = True
   \<and> ''boycott'' \<notin> set [''name'', ''reason'']
   \<and> boycott (parse_row [''name'', ''reason''] ''A,r'') = False"
proof -
  have h1: "''boycott'' \<notin> set [''reason'']" by simp
  have h2: "''boycott'' \<notin> set [''name'', ''reason'']" by simp
  have v: "toLowerCase (trim (cell_value (js_split CHR '','' ''A, YES ,r'') (length [''name''])))
             = ''yes''"
    by code_simp
  from boycott_decoding [where post = "[''reason'']" and pre = "[''name'']"
        and line = "''A, YES ,r''" and hs = "[''name'', ''reason'']" and row = "''A,r''"]
    h1 h2 v
  show ?thesis by simp
qed

text \<open>
  C3 as stated fails: the field " YES " of the boycott column, lower-cased, is " yes ",
  which is neither "true" nor "yes", and the record decoded from that row has boycott
  true, because every cell is trimmed before it is decoded.
\<close>

theorem boycott_untrimmed_counterexample:
  "cell_value (js_split CHR '','' ''A, YES ,r'') 1 = '' YES ''
   \<and> toLowerCase '' YES '' = '' yes ''
   \<and> '' yes '' \<noteq> ''true'' \<and> '' yes '' \<noteq> ''yes''
   \<and> parseCSV ''name,boycott,reason\<newline>A, YES ,r''
        = Inr [\<lparr>name = ''A'', boycott = True, reason = ''r'', country = ''GLOBAL'',
                alternatives = [], barcodes = [], proofUrls = []\<rparr>]"
proof (intro conjI)
  show "cell_value (js_split CHR '','' ''A, YES ,r'') 1 = '' YES ''" by code_simp
  show "toLowerCase '' YES '' = '' yes ''" by code_simp
  show "'' yes '' \<noteq> ''true''" by simp
  show "'' yes '' \<noteq> ''yes''" by simp
  show "parseCSV ''name,boycott,reason\<newline>A, YES ,r''
        = Inr [\<lparr>name = ''A'', boycott = True, reason = ''r'', country = ''GLOBAL'',
                alternatives = [], barcodes = [], proofUrls = []\<rparr>]"
    by code_simp
qed

section \<open>The barcodes and proofurls columns\<close>

text \<open>
  C5. The barcodes of a decoded row are the pieces of the (last) barcodes field split on
  semicolon, each trimmed, with the empty ones dropped; likewise the proofUrls for a
  proofurls or proof_urls column. The field "111;222; 333 " decodes to "111", "222", "333",
  and a semicolon at the end of a field adds no element.
\<close>

theorem list_column_decoding:
  "(''barcodes'' \<notin> set post \<longrightarrow>
      barcodes (parse_row (pre @ ''barcodes'' # post) line)
        = filter (\<lambda>b. b \<noteq> [])
            (map trim (js_split CHR '';'' (cell_value (js_split CHR '','' line) (length pre)))))
   \<and> ((h = ''proofurls'' \<or> h = ''proof_urls'')
        \<and> ''proofurls'' \<notin> set post' \<and> ''proof_urls'' \<notin> set post' \<longrightarrow>
      proofUrls (parse_row (pre' @ h # post') line')
        = filter (\<lambda>b. b \<noteq> [])
            (map trim (js_split CHR '';'' (cell_value (js_split CHR '','' line') (length pre')))))
   \<and> barcodes (parse_row [''barcodes''] ''111;222; 333 '') = [''111'', ''222'', ''333'']
   \<and> filter (\<lambda>b. b \<noteq> []) (map trim (js_split CHR '';'' (v @ '';'')))
        = filter (\<lambda>b. b \<noteq> []) (map trim (js_split CHR '';'' v))"
proof (intro conjI)
  show "''barcodes'' \<notin> set post \<longrightarrow>
      barcodes (parse_row (pre @ ''barcodes'' # post) line)
        = filter (\<lambda>b. b \<noteq> [])
            (map trim (js_split CHR '';'' (cell_value (js_split CHR '','' line) (length pre))))"
    by (simp add: parse_row_split forEach_headers_other set_field_key
          cell_value_map_trim parse_list_raw)
  show "(h = ''proofurls'' \<or> h = ''proof_urls'')
        \<and> ''proofurls'' \<notin> set post' \<and> ''proof_urls'' \<notin> set post' \<longrightarrow>
      proofUrls (parse_row (pre' @ h # post') line')
        = filter (\<lambda>b. b \<noteq> [])
            (map trim (js_split CHR '';'' (cell_value (js_split CHR '','' line') (length pre'))))"
    by (auto simp: parse_row_split forEach_headers_other set_field_key
          cell_value_map_trim parse_list_raw)
  show "barcodes (parse_row [''barcodes''] ''111;222; 333 '') = [''111'', ''222'', ''333'']"
    by code_simp
  show "filter (\<lambda>b. b \<noteq> []) (map trim (js_split CHR '';'' (v @ '';'')))
        = filter (\<lambda>b. b \<noteq> []) (map trim (js_split CHR '';'' v))"
    by (simp add: js_split_snoc_sep trim_Nil)
qed

theorem list_column_decoding_witness:
  "''barcodes'' \<notin> set [''proofurls'']
   \<and> barcodes (parse_row [''name'', ''barcodes'', ''proofurls''] ''A, 12 ; ;34; ,u;;w'')
        = [''12'', ''34'']
   \<and> ''proofurls'' \<notin> set ([] :: string list) \<and> ''proof_urls'' \<notin> set ([] :: string list)
   \<and> proofUrls (parse_row [''name'', ''barcodes'', ''proof_urls''] ''A, 12 ; ;34; ,u;;w'')
        = [''u'', ''w'']"
proof -
  have h1: "''barcodes'' \<notin> set [''proofurls'']" by simp
  have v1: "filter (\<lambda>b. b \<noteq> [])
              (map trim (js_split CHR '';''
                 (cell_value (js_split CHR '','' ''A, 12 ; ;34; ,u;;w'') (length [''name'']))))
            = [''12'', ''34'']"
    by code_simp
  have v2: "filter (\<lambda>b. b \<noteq> [])
              (map trim (js_split CHR '';''
                 (cell_value (js_split CHR '','' ''A, 12 ; ;34; ,u;;w'')
                    (length [''name'', ''barcodes'']))))
            = [''u'', ''w'']"
    by code_simp
  from list_column_decoding [where post = "[''proofurls'']" and pre = "[''name'']"
        and line = "''A, 12 ; ;34; ,u;;w''" and h = "''proof_urls''" and post' = "[]"
        and pre' = "[''name'', ''barcodes'']" and line' = "''A, 12 ; ;34; ,u;;w''"]
    h1 v1 v2
  show ?thesis by simp
qed

section \<open>The alternatives column\<close>

text \<open>
  C6. The alternatives of a decoded row are obtained from the alternatives field by
  splitting it on semicolon, decoding every sub-field as a triple split on colon, and
  dropping the triples whose name is empty after trimming (for a row with one alternatives
  column, or with a non-empty cell in the last one). The description of a triple is the
  third colon-part trimmed, and empty when there is no third part. The sub-field "Alt B:US"
  decodes to name "Alt B", countryCode "US", description "".
\<close>

theorem alternatives_decoding:
  "(''alternatives'' \<notin> set post
      \<and> (''alternatives'' \<notin> set pre
           \<or> trim (cell_value (js_split CHR '','' line) (length pre)) \<noteq> []) \<longrightarrow>
      alternatives (parse_row (pre @ ''alternatives'' # post) line)
        = filter (\<lambda>a. trim (alt_name a) \<noteq> [])
            (map parse_alternative
               (js_split CHR '';'' (cell_value (js_split CHR '','' line) (length pre)))))
   \<and> alt_description (parse_alternative sub)
        = (if 2 < length (js_split CHR '':'' sub) then trim (js_split CHR '':'' sub ! 2)
           else '''')
   \<and> parse_alternative ''Alt B:US''
        = \<lparr>alt_name = ''Alt B'', alt_countryCode = ''US'', alt_description = ''''\<rparr>"
proof (intro conjI)
  let ?raw = "cell_value (js_split CHR '','' line) (length pre)"
  let ?vals = "map trim (js_split CHR '','' line)"
  show "''alternatives'' \<notin> set post
      \<and> (''alternatives'' \<notin> set pre \<or> trim ?raw \<noteq> []) \<longrightarrow>
      alternatives (parse_row (pre @ ''alternatives'' # post) line)
        = filter (\<lambda>a. trim (alt_name a) \<noteq> [])
            (map parse_alternative (js_split CHR '';'' ?raw))"
  proof
    assume h: "''alternatives'' \<notin> set post
      \<and> (''alternatives'' \<notin> set pre \<or> trim ?raw \<noteq> [])"
    have "alternatives (parse_row (pre @ ''alternatives'' # post) line)
            = (if trim ?raw \<noteq> [] then parse_alternatives (trim ?raw)
               else alternatives (forEach_headers ?vals 0 pre empty_company))"
      using h by (simp add: parse_row_split forEach_headers_other set_field_key
            cell_value_map_trim)
    also have "\<dots> = parse_alternatives ?raw"
    proof (cases "trim ?raw = []")
      case True
      with h have "''alternatives'' \<notin> set pre" by simp
      then have "alternatives (forEach_headers ?vals 0 pre empty_company) = []"
        by (simp add: forEach_headers_other empty_company_def)
      with True show ?thesis by (simp add: parse_alternatives_trim_Nil)
    next
      case False
      then show ?thesis by (simp add: parse_alternatives_raw)
    qed
    finally show "alternatives (parse_row (pre @ ''alternatives'' # post) line)
        = filter (\<lambda>a. trim (alt_name a) \<noteq> [])
            (map parse_alternative (js_split CHR '';'' ?raw))"
      by (simp only: parse_alternatives_spec)
  qed
  show "alt_description (parse_alternative sub)
        = (if 2 < length (js_split CHR '':'' sub) then trim (js_split CHR '':'' sub ! 2)
           else '''')"
    by (subst parse_alternative_parts) simp
  show "parse_alternative ''Alt B:US''
        = \<lparr>alt_name = ''Alt B'', alt_countryCode = ''US'', alt_description = ''''\<rparr>"
    by code_simp
qed

theorem alternatives_decoding_witness:
  "''alternatives'' \<notin> set [''reason'']
   \<and> ''alternatives'' \<notin> set [''name'']
   \<and> alternatives (parse_row [''name'', ''alternatives'', ''reason'']
                     ''A, Alt A:IN:desc; :US:x ;Alt B:US;,r'')
       = [\<lparr>alt_name = ''Alt A'', alt_countryCode = ''IN'', alt_description = ''desc''\<rparr>,
          \<lparr>alt_name = ''Alt B'', alt_countryCode = ''US'', alt_description = ''''\<rparr>]"
proof -
  have h1: "''alternatives'' \<notin> set [''reason'']" by simp
  have h2: "''alternatives'' \<notin> set [''name'']" by simp
  have v: "filter (\<lambda>a. trim (alt_name a) \<noteq> [])
            (map parse_alternative
               (js_split CHR '';''
                  (cell_value (js_split CHR '','' ''A, Alt A:IN:desc; :US:x ;Alt B:US;,r'')
                     (length [''name'']))))
       = [\<lparr>alt_name = ''Alt A'', alt_countryCode = ''IN'', alt_description = ''desc''\<rparr>,
          \<lparr>alt_name = ''Alt B'', alt_countryCode = ''US'', alt_description = ''''\<rparr>]"
    by code_simp
  from alternatives_decoding [where post = "[''reason'']" and pre = "[''name'']"
        and line = "''A, Alt A:IN:desc; :US:x ;Alt B:US;,r''"] h1 h2 v
  show ?thesis by simp
qed

text \<open>
  C10. The triple decoded from a sub-field has as name the first colon-part trimmed, as
  countryCode the second colon-part trimmed, or "GLOBAL" when there is no second part or it
  trims to empty, and as description the third colon-part trimmed, or "" when there is no
  third part. A first part always exists, and whatever follows the third part is
  discarded. The sub-field "Alt C" decodes to name "Alt C", countryCode "GLOBAL",
  description "".
\<close>

theorem alternative_triple:
  "parse_alternative sub =
     \<lparr> alt_name = trim (js_split CHR '':'' sub ! 0),
       alt_countryCode =
         (if 1 < length (js_split CHR '':'' sub) \<and> trim (js_split CHR '':'' sub ! 1) \<noteq> []
          then trim (js_split CHR '':'' sub ! 1) else ''GLOBAL''),
       alt_description =
         (if 2 < length (js_split CHR '':'' sub) then trim (js_split CHR '':'' sub ! 2)
          else '''') \<rparr>
   \<and> 0 < length (js_split CHR '':'' sub)
   \<and> (3 \<le> length (js_split CHR '':'' sub) \<longrightarrow>
        parse_alternative (sub @ CHR '':'' # rest) = parse_alternative sub)
   \<and> parse_alternative ''Alt C''
        = \<lparr>alt_name = ''Alt C'', alt_countryCode = ''GLOBAL'', alt_description = ''''\<rparr>"
proof (intro conjI)
  show "parse_alternative sub =
     \<lparr> alt_name = trim (js_split CHR '':'' sub ! 0),
       alt_countryCode =
         (if 1 < length (js_split CHR '':'' sub) \<and> trim (js_split CHR '':'' sub ! 1) \<noteq> []
          then trim (js_split CHR '':'' sub ! 1) else ''GLOBAL''),
       alt_description =
         (if 2 < length (js_split CHR '':'' sub) then trim (js_split CHR '':'' sub ! 2)
          else '''') \<rparr>"
    by (rule parse_alternative_parts)
  show "0 < length (js_split CHR '':'' sub)"
    using js_split_not_Nil [of "CHR '':''" sub] by simp
  show "3 \<le> length (js_split CHR '':'' sub) \<longrightarrow>
        parse_alternative (sub @ CHR '':'' # rest) = parse_alternative sub"
    by (subst (1 2) parse_alternative_parts)
       (simp add: js_split_append_sep nth_append)
  show "parse_alternative ''Alt C''
        = \<lparr>alt_name = ''Alt C'', alt_countryCode = ''GLOBAL'', alt_description = ''''\<rparr>"
    by code_simp
qed

theorem alternative_triple_witness:
  "3 \<le> length (js_split CHR '':'' '' A : : d '')
   \<and> parse_alternative '' A : : d :x:y''
        = \<lparr>alt_name = ''A'', alt_countryCode = ''GLOBAL'', alt_description = ''d''\<rparr>"
proof -
  have h: "3 \<le> length (js_split CHR '':'' '' A : : d '')" by code_simp
  have v: "parse_alternative '' A : : d ''
        = \<lparr>alt_name = ''A'', alt_countryCode = ''GLOBAL'', alt_description = ''d''\<rparr>"
    by code_simp
  from alternative_triple [where sub = "'' A : : d ''" and rest = "''x:y''"] h v
  show ?thesis by simp
qed

section \<open>Order of the output\<close>

text \<open>
  C7 (as the code has it). The records parseCSV returns are the decoded rows at the line
  indices where the loop pushes, and these indices are strictly increasing and lie between
  1 and the number of lines: the output keeps the order of the source rows. A record has the
  seven fields of the form data and no row number.
\<close>

theorem parseCSV_row_order:
  "parseCSV s
     = Inr (map (\<lambda>i. parse_row (csv_headers s) (csv_lines s ! i)) (emitted_rows s))
   \<and> sorted_wrt (<) (emitted_rows s)
   \<and> set (emitted_rows s) \<subseteq> {1 ..< length (csv_lines s)}"
proof (intro conjI)
  show "parseCSV s
     = Inr (map (\<lambda>i. parse_row (csv_headers s) (csv_lines s ! i)) (emitted_rows s))"
    by (simp add: parseCSV_eq drop_1_nth emitted_rows_def filter_map comp_def
          del: One_nat_def)
  show "sorted_wrt (<) (emitted_rows s)"
    unfolding emitted_rows_def by (rule sorted_wrt_filter) (rule sorted_wrt_upt)
  show "set (emitted_rows s) \<subseteq> {1 ..< length (csv_lines s)}"
    by (auto simp: emitted_rows_def)
qed

theorem parseCSV_row_order_witness:
  "emitted_rows ''name,reason\<newline>,\<newline>B,q\<newline>C,\<newline>D,w'' = [2, 4]
   \<and> parseCSV ''name,reason\<newline>,\<newline>B,q\<newline>C,\<newline>D,w''
        = Inr [parse_row [''name'', ''reason''] ''B,q'', parse_row [''name'', ''reason''] ''D,w'']"
proof -
  have r: "emitted_rows ''name,reason\<newline>,\<newline>B,q\<newline>C,\<newline>D,w'' = [2, 4]"
    by code_simp
  have h: "csv_headers ''name,reason\<newline>,\<newline>B,q\<newline>C,\<newline>D,w'' = [''name'', ''reason'']"
    by code_simp
  have l: "csv_lines ''name,reason\<newline>,\<newline>B,q\<newline>C,\<newline>D,w''
             = [''name,reason'', '','', ''B,q'', ''C,'', ''D,w'']"
    by code_simp
  from parseCSV_row_order [of "''name,reason\<newline>,\<newline>B,q\<newline>C,\<newline>D,w''"]
  show ?thesis unfolding r h l by simp
qed

text \<open>
  C7 as stated fails: the same record comes out of line 1 of one text and of line 2 of
  another, and the two outputs are equal, so a record does not carry its source line.
\<close>

theorem row_number_counterexample:
  "parseCSV ''name,reason\<newline>Acme,bad'' = parseCSV ''name,reason\<newline>,\<newline>Acme,bad''
   \<and> parseCSV ''name,reason\<newline>Acme,bad''
        = Inr [\<lparr>name = ''Acme'', boycott = False, reason = ''bad'', country = ''GLOBAL'',
                alternatives = [], barcodes = [], proofUrls = []\<rparr>]
   \<and> emitted_rows ''name,reason\<newline>Acme,bad'' = [1]
   \<and> emitted_rows ''name,reason\<newline>,\<newline>Acme,bad'' = [2]"
  by code_simp

section \<open>The sample row\<close>

text \<open>
  C1. For the header \<open>name,boycott,reason,country,alternatives,barcodes,proofurls\<close> and
  the data row with the quoted alternatives field, parseCSV returns one record with name
  "Sample Co", boycott true, country "IN", one barcode and one proof URL, but the double
  quotes of the field stay in the alternative: its name begins with a quote and its
  description ends with one. The same happens on the sample file that the dialog itself
  offers for download.
\<close>

theorem parseCSV_sample_row:
  \<open>parseCSV ''name,boycott,reason,country,alternatives,barcodes,proofurls\<newline>Sample Co,true,Environmental concerns,IN,"Alt A:IN:desc",111111111111,https://x.test/a''
     = Inr [\<lparr> name = ''Sample Co'', boycott = True, reason = ''Environmental concerns'',
              country = ''IN'',
              alternatives = [\<lparr>alt_name = CHR 0x22 # ''Alt A'', alt_countryCode = ''IN'',
                               alt_description = ''desc'' @ [CHR 0x22]\<rparr>],
              barcodes = [''111111111111''], proofUrls = [''https://x.test/a''] \<rparr>]
   \<and> parseCSV sampleData
     = Inr [\<lparr> name = ''Sample Company A'', boycott = True,
              reason = ''Environmental concerns'', country = ''IN'',
              alternatives =
                [\<lparr>alt_name = CHR 0x22 # ''Dr Pepper'', alt_countryCode = ''IN'',
                  alt_description = ''Organic alternative''\<rparr>,
                 \<lparr>alt_name = ''RC Cola'', alt_countryCode = ''PK'',
                  alt_description = ''Local brand'' @ [CHR 0x22]\<rparr>],
              barcodes = [''1111111111111'', ''2222222222222''],
              proofUrls = [''https://example.com/article1''] \<rparr>,
            \<lparr> name = ''Sample Company B'', boycott = False,
              reason = ''No current issues'', country = ''US'',
              alternatives =
                [\<lparr>alt_name = CHR 0x22 # ''Local Brand'', alt_countryCode = ''US'',
                  alt_description = ''Regional alternative'' @ [CHR 0x22]\<rparr>],
              barcodes = [''3333333333333''],
              proofUrls = [''https://example.com/article2''] \<rparr>]\<close>
proof
  show \<open>parseCSV ''name,boycott,reason,country,alternatives,barcodes,proofurls\<newline>Sample Co,true,Environmental concerns,IN,"Alt A:IN:desc",111111111111,https://x.test/a''
     = Inr [\<lparr> name = ''Sample Co'', boycott = True, reason = ''Environmental concerns'',
              country = ''IN'',
              alternatives = [\<lparr>alt_name = CHR 0x22 # ''Alt A'', alt_countryCode = ''IN'',
                               alt_description = ''desc'' @ [CHR 0x22]\<rparr>],
              barcodes = [''111111111111''], proofUrls = [''https://x.test/a''] \<rparr>]\<close>
    by code_simp
  show \<open>parseCSV sampleData
     = Inr [\<lparr> name = ''Sample Company A'', boycott = True,
              reason = ''Environmental concerns'', country = ''IN'',
              alternatives =
                [\<lparr>alt_name = CHR 0x22 # ''Dr Pepper'', alt_countryCode = ''IN'',
                  alt_description = ''Organic alternative''\<rparr>,
                 \<lparr>alt_name = ''RC Cola'', alt_countryCode = ''PK'',
                  alt_description = ''Local brand'' @ [CHR 0x22]\<rparr>],
              barcodes = [''1111111111111'', ''2222222222222''],
              proofUrls = [''https://example.com/article1''] \<rparr>,
            \<lparr> name = ''Sample Company B'', boycott = False,
              reason = ''No current issues'', country = ''US'',
              alternatives =
                [\<lparr>alt_name = CHR 0x22 # ''Local Brand'', alt_countryCode = ''US'',
                  alt_description = ''Regional alternative'' @ [CHR 0x22]\<rparr>],
              barcodes = [''3333333333333''],
              proofUrls = [''https://example.com/article2''] \<rparr>]\<close>
    by code_simp
qed

end
